theory Spec2Isabelle
  imports Complex_Main
begin

section \<open>Shared types (types.ts)\<close>

text \<open>
  JavaScript numbers and GLSL floats are modelled as mathematical reals: rounding is
  not part of the model. \<open>Date.now()\<close> is an integer number of milliseconds.
\<close>

datatype AppState = CHAOS | FORMED | FOCUS

record vec3 =
  vx :: real
  vy :: real
  vz :: real

section \<open>Transition engine: the progress scalar (Foliage.tsx, OrbitingParticles.tsx)\<close>

text \<open>
  \<open>THREE.MathUtils.lerp(x, y, t)\<close> of three.js is \<open>(1 - t) * x + t * y\<close>; it does not
  clamp \<open>t\<close>.
\<close>

definition lerp :: "real \<Rightarrow> real \<Rightarrow> real \<Rightarrow> real" where
  "lerp x y t = (1 - t) * x + t * y"

record uniforms =
  uTime :: real
  uProgress :: real
  uPixelRatio :: real

text \<open>\<open>const targetProgress = (appState === FORMED || appState === FOCUS) ? 1 : 0\<close>\<close>

definition targetProgress :: "AppState \<Rightarrow> real" where
  "targetProgress appState = (if appState = FORMED \<or> appState = FOCUS then 1 else 0)"

text \<open>
  The \<open>useFrame\<close> callback of a particle family. \<open>mesh\<close> says whether \<open>meshRef.current\<close>
  is set, \<open>elapsed\<close> is \<open>state.clock.elapsedTime\<close>, \<open>delta\<close> the frame's timestep and
  \<open>k\<close> the family's rate constant.
\<close>

definition familyFrame :: "real \<Rightarrow> bool \<Rightarrow> AppState \<Rightarrow> real \<Rightarrow> real \<Rightarrow> uniforms \<Rightarrow> uniforms" where
  "familyFrame k mesh appState elapsed delta u =
     (if mesh
      then u\<lparr>uTime := elapsed,
              uProgress := lerp (uProgress u) (targetProgress appState) (delta * k)\<rparr>
      else u)"

definition foliageFrame :: "bool \<Rightarrow> AppState \<Rightarrow> real \<Rightarrow> real \<Rightarrow> uniforms \<Rightarrow> uniforms" where
  "foliageFrame = familyFrame 0.8"

definition orbitingFrame :: "bool \<Rightarrow> AppState \<Rightarrow> real \<Rightarrow> real \<Rightarrow> uniforms \<Rightarrow> uniforms" where
  "orbitingFrame = familyFrame 0.6"

text \<open>
  The fairy lights (FairyLights.tsx) and the ribbon with its snow (Ribbon.tsx) run the
  same update at the rate 0.8; the ribbon tests \<open>materialRef.current\<close> instead of the
  mesh and copies the two uniforms to the material.
\<close>

definition fairyLightsFrame :: "bool \<Rightarrow> AppState \<Rightarrow> real \<Rightarrow> real \<Rightarrow> uniforms \<Rightarrow> uniforms" where
  "fairyLightsFrame = familyFrame 0.8"

definition ribbonFrame :: "bool \<Rightarrow> AppState \<Rightarrow> real \<Rightarrow> real \<Rightarrow> uniforms \<Rightarrow> uniforms" where
  "ribbonFrame = familyFrame 0.8"

text \<open>The initial uniforms: \<open>uTime = 0\<close>, \<open>uProgress = 0\<close>.\<close>

definition initUniforms :: "real \<Rightarrow> uniforms" where
  "initUniforms pr = \<lparr>uTime = 0, uProgress = 0, uPixelRatio = pr\<rparr>"

text \<open>
  A run of frames: each frame carries the application state seen by the component,
  the elapsed time and the timestep.
\<close>

fun runFrames :: "(bool \<Rightarrow> AppState \<Rightarrow> real \<Rightarrow> real \<Rightarrow> uniforms \<Rightarrow> uniforms) \<Rightarrow>
    (AppState \<times> real \<times> real) list \<Rightarrow> uniforms \<Rightarrow> uniforms" where
  "runFrames f [] u = u"
| "runFrames f ((a, el, d) # fs) u = runFrames f fs (f True a el d u)"

section \<open>Transition engine: the vertex shader's blend (Foliage.tsx)\<close>

text \<open>
  \<open>float ease = t < 0.5 ? 4.0 * t * t * t : 1.0 - pow(-2.0 * t + 2.0, 3.0) / 2.0\<close>
\<close>

definition ease :: "real \<Rightarrow> real" where
  "ease t = (if t < 0.5 then 4 * t * t * t else 1 - (- 2 * t + 2) ^ 3 / 2)"

text \<open>GLSL \<open>mix(x, y, a) = x * (1 - a) + y * a\<close>, componentwise on vectors.\<close>

definition mix :: "real \<Rightarrow> real \<Rightarrow> real \<Rightarrow> real" where
  "mix x y a = x * (1 - a) + y * a"

definition mix3 :: "vec3 \<Rightarrow> vec3 \<Rightarrow> real \<Rightarrow> vec3" where
  "mix3 p q a = \<lparr>vx = mix (vx p) (vx q) a, vy = mix (vy p) (vy q) a, vz = mix (vz p) (vz q) a\<rparr>"

text \<open>\<open>vec3 pos = mix(aChaosPos, aTargetPos, ease)\<close>\<close>

definition blendedPos :: "vec3 \<Rightarrow> vec3 \<Rightarrow> real \<Rightarrow> vec3" where
  "blendedPos aChaosPos aTargetPos progress = mix3 aChaosPos aTargetPos (ease progress)"

text \<open>
  The foliage shader then adds a wind offset to \<open>x\<close> and \<open>z\<close> once \<open>uProgress > 0.9\<close>.
\<close>

definition foliagePos :: "real \<Rightarrow> vec3 \<Rightarrow> vec3 \<Rightarrow> real \<Rightarrow> vec3" where
  "foliagePos time aChaosPos aTargetPos progress =
     (let pos = blendedPos aChaosPos aTargetPos progress in
      if progress > 0.9
      then (let wind = sin (time * 1.5 + vy pos * 0.5) * 0.05
            in pos\<lparr>vx := vx pos + wind, vz := vz pos + wind\<rparr>)
      else pos)"

section \<open>Position generator: photo placement (utils/math.ts)\<close>

record SourcePhoto =
  sid :: string
  surl :: string
  saspectRatio :: real

record PhotoData =
  pid :: string
  url :: string
  aspectRatio :: real
  targetPos :: vec3
  scale :: real
  ribbonPoint :: vec3

text \<open>
  The curve parameter \<open>t\<close> computed inside the \<open>map\<close> callback of
  \<open>generatePhotoPositions\<close> for the photo at index \<open>i\<close> of \<open>n\<close> photos.
\<close>

definition curveParam :: "nat \<Rightarrow> nat \<Rightarrow> real" where
  "curveParam n i =
     (if n > 1 then 0.15 + (real i / (real n - 1)) * 0.7
      else if n = 1 then 0.5
      else 0.5)"

text \<open>
  \<open>generatePhotoPositions\<close>, with the ribbon curve's \<open>getPointAt\<close> (three.js) taken as
  a parameter; the curve does not depend on the arguments \<open>treeHeight\<close> and
  \<open>treeRadius\<close>. The random chaos position and the rotation (three.js \<open>Object3D\<close>) of
  each photo are left out of the record.
\<close>

definition generatePhotoPositions :: "(real \<Rightarrow> vec3) \<Rightarrow> SourcePhoto list \<Rightarrow> PhotoData list" where
  "generatePhotoPositions getPointAt sourcePhotos =
     map (\<lambda>(i, photo).
            let t = curveParam (length sourcePhotos) i;
                pointOnRibbon = getPointAt t;
                dropDist = 1
            in \<lparr>pid = sid photo, url = surl photo, aspectRatio = saspectRatio photo,
                targetPos = \<lparr>vx = vx pointOnRibbon, vy = vy pointOnRibbon - dropDist,
                             vz = vz pointOnRibbon\<rparr>,
                scale = 1.2, ribbonPoint = pointOnRibbon\<rparr>)
         (enumerate 0 sourcePhotos)"

section \<open>Gesture classifier (components/GestureController.tsx)\<close>

datatype gesture = POINT | OPEN | FIST | NONE

datatype js_error = TypeError

record landmark =
  lx :: real
  ly :: real
  lz :: real

text \<open>The local function \<open>dist\<close> of \<open>predictWebcam\<close>: Euclidean distance of two landmarks.\<close>

definition distLm :: "landmark \<Rightarrow> landmark \<Rightarrow> real" where
  "distLm p1 p2 = sqrt ((lx p1 - lx p2) ^ 2 + (ly p1 - ly p2) ^ 2 + (lz p1 - lz p2) ^ 2)"

text \<open>
  The classification block of \<open>predictWebcam\<close>. Reading \<open>landmarks[i]\<close> beyond the end
  of the array gives \<open>undefined\<close>, and \<open>dist\<close> then throws a \<open>TypeError\<close> on its first
  property read; the highest index read is 20.
\<close>

definition detectGesture :: "landmark list \<Rightarrow> js_error + gesture" where
  "detectGesture landmarks =
     (if length landmarks \<le> 20 then Inl TypeError
      else
        let indexTip = landmarks ! 8;
            middleTip = landmarks ! 12;
            ringTip = landmarks ! 16;
            pinkyTip = landmarks ! 20;
            wrist = landmarks ! 0;
            tipsToWristAvg =
              (distLm indexTip wrist + distLm middleTip wrist +
               distLm ringTip wrist + distLm pinkyTip wrist) / 4;
            isFist = tipsToWristAvg < 0.25;
            isOpen = tipsToWristAvg > 0.45;
            isIndexExtended = distLm indexTip wrist > 0.35;
            areOthersCurled =
              (distLm middleTip wrist < 0.3 \<and> distLm ringTip wrist < 0.3 \<and>
               distLm pinkyTip wrist < 0.3);
            isPointing = (isIndexExtended \<and> areOthersCurled)
        in Inr (if isFist then FIST
                else if isPointing then POINT
                else if isOpen then OPEN
                else NONE))"

text \<open>
  The classification rule in the words of the specification, on the four
  wrist-to-fingertip distances (index, middle, ring, pinky).
\<close>

definition lowThreshold :: real where "lowThreshold = 0.25"
definition highThreshold :: real where "highThreshold = 0.45"
definition extensionThreshold :: real where "extensionThreshold = 0.35"
definition curlThreshold :: real where "curlThreshold = 0.3"

definition specClassify :: "real \<Rightarrow> real \<Rightarrow> real \<Rightarrow> real \<Rightarrow> gesture" where
  "specClassify dIndex dMiddle dRing dPinky =
     (let average = (dIndex + dMiddle + dRing + dPinky) / 4 in
      if average < lowThreshold then FIST
      else if dIndex > extensionThreshold \<and> dMiddle < curlThreshold \<and>
              dRing < curlThreshold \<and> dPinky < curlThreshold then POINT
      else if average > highThreshold then OPEN
      else NONE)"

text \<open>The two refs of the component: \<open>lastGesture\<close> and \<open>gestureDebounce\<close>.\<close>

record gstate =
  lastGesture :: gesture
  gestureDebounce :: int

definition initGesture :: gstate where
  "initGesture = \<lparr>lastGesture = NONE, gestureDebounce = 0\<rparr>"

text \<open>The calls made to the consumer: \<open>onHandMove(x, y)\<close> and \<open>onGesture(g)\<close>.\<close>

datatype event = HandMove real real | Gesture gesture

text \<open>The debounce gate at the end of the classification block.\<close>

definition gestureGate :: "int \<Rightarrow> gesture \<Rightarrow> gstate \<Rightarrow> gstate \<times> event list" where
  "gestureGate nowInMs detectedGesture st =
     (if detectedGesture \<noteq> lastGesture st then
        (if nowInMs - gestureDebounce st > 150
         then (st\<lparr>lastGesture := detectedGesture, gestureDebounce := nowInMs\<rparr>,
               [Gesture detectedGesture])
         else (st, []))
      else (st, []))"

text \<open>
  What one scheduled call of \<open>predictWebcam\<close> finds: the model is not loaded yet,
  \<open>detectForVideo\<close> threw, or it returned \<open>results.landmarks\<close> (one landmark array per
  detected hand).
\<close>

datatype detection = NotLoaded | DetectThrew | Detected "landmark list list"

text \<open>
  One call of \<open>predictWebcam\<close> at time \<open>nowInMs\<close>: the events it emits, and the new
  state or the error it throws. The hand position is emitted before the
  classification reads the fingertips.
\<close>

definition predictWebcam :: "int \<Rightarrow> detection \<Rightarrow> gstate \<Rightarrow> event list \<times> (js_error + gstate)" where
  "predictWebcam nowInMs det st =
     (case det of
        NotLoaded \<Rightarrow> ([], Inr st)
      | DetectThrew \<Rightarrow> ([], Inr st)
      | Detected hands \<Rightarrow>
          (case hands of
             [] \<Rightarrow> ([], Inr st)
           | landmarks # _ \<Rightarrow>
               (case landmarks of
                  [] \<Rightarrow> ([], Inl TypeError)
                | wrist # _ \<Rightarrow>
                    (let xRaw = lx wrist; y = ly wrist; currentX = 1 - xRaw;
                         moved = [HandMove currentX y]
                     in case detectGesture landmarks of
                          Inl e \<Rightarrow> (moved, Inl e)
                        | Inr detectedGesture \<Rightarrow>
                            (let (st', emitted) = gestureGate nowInMs detectedGesture st
                             in (moved @ emitted, Inr st'))))))"

text \<open>
  The animation-frame loop: an error thrown inside \<open>predictWebcam\<close> leaves the next
  frame unscheduled, so the loop stops there.
\<close>

fun runWebcam :: "(int \<times> detection) list \<Rightarrow> gstate \<Rightarrow> event list \<times> (js_error + gstate)" where
  "runWebcam [] st = ([], Inr st)"
| "runWebcam ((nowInMs, det) # frames) st =
     (case predictWebcam nowInMs det st of
        (evs, Inl e) \<Rightarrow> (evs, Inl e)
      | (evs, Inr st') \<Rightarrow> (let (evs', r) = runWebcam frames st' in (evs @ evs', r)))"

text \<open>The discrete gestures among the emitted events, in order.\<close>

fun gesturesOf :: "event list \<Rightarrow> gesture list" where
  "gesturesOf [] = []"
| "gesturesOf (Gesture g # evs) = g # gesturesOf evs"
| "gesturesOf (HandMove x y # evs) = gesturesOf evs"

text \<open>Hand samples used as concrete inputs: all 21 landmarks at the wrist except the listed tips.\<close>

definition origin :: landmark where
  "origin = \<lparr>lx = 0, ly = 0, lz = 0\<rparr>"

definition tip :: landmark where
  "tip = \<lparr>lx = 1, ly = 0, lz = 0\<rparr>"

definition fistHand :: "landmark list" where
  "fistHand = replicate 21 origin"

definition openHand :: "landmark list" where
  "openHand = (replicate 21 origin)[8 := tip, 12 := tip, 16 := tip, 20 := tip]"

definition pointHand :: "landmark list" where
  "pointHand = (replicate 21 origin)[8 := tip]"

section \<open>Application state machine (App.tsx)\<close>

record app =
  appState :: AppState
  handRotation :: "(real \<times> real) option"
  gestureStatus :: gesture
  photos :: "PhotoData list"
  featuredPhotoId :: "string option"
  recentPhotos :: "string list"

text \<open>The state of the component at mount: no photos, \<open>CHAOS\<close>, nothing featured.\<close>

definition initApp :: app where
  "initApp = \<lparr>appState = CHAOS, handRotation = None, gestureStatus = NONE, photos = [],
              featuredPhotoId = None, recentPhotos = []\<rparr>"

definition MAX_HISTORY :: nat where
  "MAX_HISTORY = 5"

text \<open>
  The candidate set of a \<open>POINT\<close> selection: the photos outside the history if there
  are any; otherwise, with more than one photo and a non-empty history, the photos
  other than the last viewed one; otherwise all photos.
\<close>

definition selectCandidates :: "PhotoData list \<Rightarrow> string list \<Rightarrow> PhotoData list" where
  "selectCandidates ps recent =
     (let strictCandidates = filter (\<lambda>p. pid p \<notin> set recent) ps in
      if length strictCandidates > 0 then strictCandidates
      else if length ps > 1 \<and> length recent > 0
      then (let lastViewed = recent ! (length recent - 1)
            in filter (\<lambda>p. pid p \<noteq> lastViewed) ps)
      else ps)"

text \<open>The history update: append, then drop the oldest entry beyond \<open>MAX_HISTORY\<close>.\<close>

definition pushHistory :: "string list \<Rightarrow> string \<Rightarrow> string list" where
  "pushHistory recent selectedId =
     (let newHistory = recent @ [selectedId] in
      if length newHistory > MAX_HISTORY then tl newHistory else newHistory)"

text \<open>
  \<open>handleGesture\<close>. \<open>rnd\<close> is the value \<open>Math.random()\<close> returns if it is called.
  \<open>candidates[randomIdx]\<close> outside the array is \<open>undefined\<close>, and reading its \<open>id\<close>
  throws.
\<close>

definition handleGesture :: "gesture \<Rightarrow> real \<Rightarrow> app \<Rightarrow> js_error + app" where
  "handleGesture gesture rnd s0 =
     (let s = s0\<lparr>gestureStatus := gesture\<rparr> in
      if gesture = POINT then
        (if appState s \<noteq> FOCUS then
           (if length (photos s) > 0 then
              (let candidates = selectCandidates (photos s) (recentPhotos s);
                   randomIdx = \<lfloor>rnd * real (length candidates)\<rfloor>
               in if 0 \<le> randomIdx \<and> randomIdx < int (length candidates) then
                    (let selectedId = pid (candidates ! nat randomIdx)
                     in Inr (s\<lparr>featuredPhotoId := Some selectedId,
                               handRotation := None,
                               recentPhotos := pushHistory (recentPhotos s) selectedId,
                               appState := FOCUS\<rparr>))
                  else Inl TypeError)
            else Inr (s\<lparr>appState := FOCUS\<rparr>))
         else Inr s)
      else if gesture = OPEN then Inr (s\<lparr>featuredPhotoId := None, appState := CHAOS\<rparr>)
      else if gesture = FIST then Inr (s\<lparr>featuredPhotoId := None, appState := FORMED\<rparr>)
      else Inr s)"

text \<open>\<open>handleHandMove\<close>: hand positions are ignored while the state is \<open>FOCUS\<close>.\<close>

definition handleHandMove :: "real \<Rightarrow> real \<Rightarrow> app \<Rightarrow> app" where
  "handleHandMove x y s =
     (if appState s \<noteq> FOCUS then s\<lparr>handRotation := Some (x, y)\<rparr> else s)"

text \<open>A sequence of gestures, each with the random draw available to it.\<close>

fun runGestures :: "(gesture \<times> real) list \<Rightarrow> app \<Rightarrow> js_error + app" where
  "runGestures [] s = Inr s"
| "runGestures ((g, rnd) # gs) s =
     (case handleGesture g rnd s of Inl e \<Rightarrow> Inl e | Inr s' \<Rightarrow> runGestures gs s')"

text \<open>A sequence of hand-position samples.\<close>

fun runHandMoves :: "(real \<times> real) list \<Rightarrow> app \<Rightarrow> app" where
  "runHandMoves [] s = s"
| "runHandMoves ((x, y) # ms) s = runHandMoves ms (handleHandMove x y s)"

text \<open>
  The photo identifiers selected along a sequence of gestures, in order: a gesture
  selects when it is \<open>POINT\<close>, the state is not \<open>FOCUS\<close> and there is a photo.
\<close>

definition selects :: "gesture \<Rightarrow> app \<Rightarrow> bool" where
  "selects g s = (g = POINT \<and> appState s \<noteq> FOCUS \<and> length (photos s) > 0)"

fun selectionLog :: "(gesture \<times> real) list \<Rightarrow> app \<Rightarrow> string list" where
  "selectionLog [] s = []"
| "selectionLog ((g, rnd) # gs) s =
     (case handleGesture g rnd s of
        Inl e \<Rightarrow> []
      | Inr s' \<Rightarrow>
          (if selects g s
           then (case featuredPhotoId s' of Some i \<Rightarrow> [i] | None \<Rightarrow> [])
           else []) @ selectionLog gs s')"

text \<open>The last \<open>n\<close> entries of a list.\<close>

definition lastN :: "nat \<Rightarrow> 'a list \<Rightarrow> 'a list" where
  "lastN n xs = drop (length xs - n) xs"

text \<open>A photo record with a given identifier, and a collection of two photos.\<close>

definition photoWithId :: "string \<Rightarrow> PhotoData" where
  "photoWithId i = \<lparr>pid = i, url = [], aspectRatio = 1,
                    targetPos = \<lparr>vx = 0, vy = 0, vz = 0\<rparr>, scale = 1.2,
                    ribbonPoint = \<lparr>vx = 0, vy = 0, vz = 0\<rparr>\<rparr>"

definition twoPhotos :: app where
  "twoPhotos = initApp\<lparr>appState := FORMED, photos := [photoWithId ''a'', photoWithId ''b'']\<rparr>"

definition between :: "real \<Rightarrow> real \<Rightarrow> real \<Rightarrow> bool" where
  "between a b x = (min a b \<le> x \<and> x \<le> max a b)"

text \<open>
  The progress steps of a run: for each frame, the progress before it, the target of
  that frame and the progress after it.
\<close>

fun progressSteps :: "(bool \<Rightarrow> AppState \<Rightarrow> real \<Rightarrow> real \<Rightarrow> uniforms \<Rightarrow> uniforms) \<Rightarrow>
    (AppState \<times> real \<times> real) list \<Rightarrow> uniforms \<Rightarrow> (real \<times> real \<times> real) list" where
  "progressSteps f [] u = []"
| "progressSteps f ((a, el, d) # fs) u =
     (uProgress u, targetProgress a, uProgress (f True a el d u)) #
       progressSteps f fs (f True a el d u)"

text \<open>Timesteps for which the interpolation factor \<open>delta * k\<close> stays within \<open>[0, 1]\<close>.\<close>

definition smallSteps :: "real \<Rightarrow> (AppState \<times> real \<times> real) list \<Rightarrow> bool" where
  "smallSteps k frames = (\<forall>(a, el, d) \<in> set frames. 0 \<le> d \<and> d * k \<le> 1)"

text \<open>No two neighbours of a list are equal.\<close>

fun adjDistinct :: "'a list \<Rightarrow> bool" where
  "adjDistinct [] = True"
| "adjDistinct [x] = True"
| "adjDistinct (x # y # zs) = (x \<noteq> y \<and> adjDistinct (y # zs))"

text \<open>Further concrete inputs.\<close>

definition noneHand :: "landmark list" where
  "noneHand = (replicate 21 origin)[12 := tip]"

definition sixPoints :: "(gesture \<times> real) list" where
  "sixPoints = [(POINT, 0), (OPEN, 0), (POINT, 0), (OPEN, 0), (POINT, 0), (OPEN, 0),
                (POINT, 0), (OPEN, 0), (POINT, 0), (OPEN, 0), (POINT, 0), (OPEN, 0)]"

definition sixPhotos :: app where
  "sixPhotos = initApp\<lparr>appState := FORMED,
                 photos := map photoWithId [''a'', ''b'', ''c'', ''d'', ''e'', ''f'']\<rparr>"

definition fivePhotos :: app where
  "fivePhotos = initApp\<lparr>appState := FORMED,
                  photos := map photoWithId [''a'', ''b'', ''c'', ''d'', ''e'']\<rparr>"

definition sixPointsSecond :: "(gesture \<times> real) list" where
  "sixPointsSecond = [(POINT, 0), (OPEN, 0), (POINT, 0), (OPEN, 0), (POINT, 0), (OPEN, 0),
                      (POINT, 0), (OPEN, 0), (POINT, 0), (OPEN, 0), (POINT, 1 / 4), (OPEN, 0)]"

definition fiveSources :: "SourcePhoto list" where
  "fiveSources = map (\<lambda>i. \<lparr>sid = i, surl = [], saspectRatio = 1\<rparr>) [''a'', ''b'', ''c'', ''d'', ''e'']"

definition probeCurve :: "real \<Rightarrow> vec3" where
  "probeCurve t = \<lparr>vx = t, vy = 0, vz = 0\<rparr>"

section \<open>Progress stays in range for small timesteps only\<close>

lemma lerp_between_up:
  assumes "0 \<le> t" "t \<le> 1" "p \<le> q"
  shows "p \<le> lerp p q t \<and> lerp p q t \<le> q"
proof -
  have e: "lerp p q t = p + t * (q - p)" by (simp add: lerp_def algebra_simps)
  have "0 \<le> t * (q - p)" using assms by simp
  moreover have "t * (q - p) \<le> 1 * (q - p)" using assms by (intro mult_right_mono) auto
  ultimately show ?thesis using e by simp
qed

lemma lerp_between_down:
  assumes "0 \<le> t" "t \<le> 1" "q \<le> p"
  shows "q \<le> lerp p q t \<and> lerp p q t \<le> p"
proof -
  have e: "lerp p q t = p - t * (p - q)" by (simp add: lerp_def algebra_simps)
  have "0 \<le> t * (p - q)" using assms by simp
  moreover have "t * (p - q) \<le> 1 * (p - q)" using assms by (intro mult_right_mono) auto
  ultimately show ?thesis using e by simp
qed

lemma familyFrame_step:
  assumes "0 \<le> uProgress u" "uProgress u \<le> 1" "0 \<le> d * k" "d * k \<le> 1"
  shows "between (uProgress u) (targetProgress a) (uProgress (familyFrame k m a el d u))"
    and "0 \<le> uProgress (familyFrame k m a el d u)"
    and "uProgress (familyFrame k m a el d u) \<le> 1"
proof -
  let ?p = "uProgress u" and ?t = "targetProgress a"
  have t01: "?t = 0 \<or> ?t = 1" by (simp add: targetProgress_def)
  show b: "between ?p ?t (uProgress (familyFrame k m a el d u))"
  proof (cases m)
    case False
    then show ?thesis by (simp add: familyFrame_def between_def)
  next
    case True
    show ?thesis
    proof (cases "?p \<le> ?t")
      case True
      with lerp_between_up[OF assms(3,4) True] \<open>m\<close> show ?thesis
        by (simp add: familyFrame_def between_def)
    next
      case False
      then have "?t \<le> ?p" by simp
      from lerp_between_down[OF assms(3,4) this] \<open>m\<close> False show ?thesis
        by (simp add: familyFrame_def between_def)
    qed
  qed
  from b t01 assms(1,2) show "0 \<le> uProgress (familyFrame k m a el d u)"
    by (auto simp: between_def)
  from b t01 assms(1,2) show "uProgress (familyFrame k m a el d u) \<le> 1"
    by (auto simp: between_def)
qed

lemma progressSteps_family:
  assumes "0 \<le> k" "smallSteps k frames" "0 \<le> uProgress u" "uProgress u \<le> 1"
  shows "\<forall>(p, t, p') \<in> set (progressSteps (familyFrame k) frames u).
           between p t p' \<and> 0 \<le> p' \<and> p' \<le> 1"
  using assms(2-)
proof (induction frames arbitrary: u)
  case Nil
  then show ?case by simp
next
  case (Cons fr frames)
  obtain a el d where fr: "fr = (a, el, d)" by (cases fr) auto
  from Cons.prems(1) fr have d: "0 \<le> d * k" "d * k \<le> 1"
    using assms(1) by (auto simp: smallSteps_def)
  from Cons.prems(1) have rest: "smallSteps k frames" by (auto simp: smallSteps_def)
  note st = familyFrame_step[OF Cons.prems(2,3) d, where a = a and m = True and el = el]
  from Cons.IH[OF rest st(2,3)] st show ?case by (simp add: fr)
qed

text \<open>
  C1 (as stated, refuted): from progress 0 with target 1, one foliage frame with a
  timestep of 2 seconds gives the factor 1.6 and the progress 1.6, outside \<open>[0, 1]\<close>:
  the interpolation is not clamped.
\<close>

theorem progress_large_step_counterexample:
  "uProgress (runFrames foliageFrame [(FORMED, 2, 2)] (initUniforms 1)) = 8 / 5 \<and>
   \<not> uProgress (runFrames foliageFrame [(FORMED, 2, 2)] (initUniforms 1)) \<le> 1"
  by (simp add: foliageFrame_def familyFrame_def lerp_def targetProgress_def initUniforms_def)

text \<open>
  C1 (amended): for every particle family with a progress scalar (foliage, fairy
  lights and ribbon at rate 0.8, orbiting particles at rate 0.6), along every sequence
  of frames whose timesteps keep the interpolation factor \<open>delta * rate\<close> within
  \<open>[0, 1]\<close>, and from a progress in \<open>[0, 1]\<close>, every frame moves the progress to a value
  between its old value and the frame's binary target, and the progress stays in
  \<open>[0, 1]\<close>.
\<close>

theorem progress_small_steps_bounded:
  assumes "0 \<le> uProgress u" and "uProgress u \<le> 1"
  shows "(smallSteps 0.8 frames \<longrightarrow>
            (\<forall>(p, t, p') \<in> set (progressSteps foliageFrame frames u).
               between p t p' \<and> 0 \<le> p' \<and> p' \<le> 1)) \<and>
         (smallSteps 0.6 frames \<longrightarrow>
            (\<forall>(p, t, p') \<in> set (progressSteps orbitingFrame frames u).
               between p t p' \<and> 0 \<le> p' \<and> p' \<le> 1)) \<and>
         (smallSteps 0.8 frames \<longrightarrow>
            (\<forall>(p, t, p') \<in> set (progressSteps fairyLightsFrame frames u).
               between p t p' \<and> 0 \<le> p' \<and> p' \<le> 1)) \<and>
         (smallSteps 0.8 frames \<longrightarrow>
            (\<forall>(p, t, p') \<in> set (progressSteps ribbonFrame frames u).
               between p t p' \<and> 0 \<le> p' \<and> p' \<le> 1))"
proof -
  have slow: "\<forall>(p, t, p') \<in> set (progressSteps (familyFrame 0.8) frames u).
      between p t p' \<and> 0 \<le> p' \<and> p' \<le> 1" if "smallSteps 0.8 frames"
    using progressSteps_family[OF _ that assms] by simp
  have fast: "\<forall>(p, t, p') \<in> set (progressSteps (familyFrame 0.6) frames u).
      between p t p' \<and> 0 \<le> p' \<and> p' \<le> 1" if "smallSteps 0.6 frames"
    using progressSteps_family[OF _ that assms] by simp
  from slow fast show ?thesis
    unfolding foliageFrame_def orbitingFrame_def fairyLightsFrame_def ribbonFrame_def
    by blast
qed

theorem progress_small_steps_bounded_witness:
  "progressSteps foliageFrame [(FORMED, 1, 1), (CHAOS, 2, 1)] (initUniforms 1) =
     [(0, 1, 4 / 5), (4 / 5, 0, 4 / 25)] \<and>
   between 0 1 (4 / 5) \<and> between (4 / 5) 0 (4 / 25)"
proof -
  have u: "0 \<le> uProgress (initUniforms 1)" "uProgress (initUniforms 1) \<le> 1"
    by (simp_all add: initUniforms_def)
  have small: "smallSteps 0.8 [(FORMED, 1, 1), (CHAOS, 2, 1)]"
    by (simp add: smallSteps_def)
  have steps: "progressSteps foliageFrame [(FORMED, 1, 1), (CHAOS, 2, 1)] (initUniforms 1) =
     [(0, 1, 4 / 5), (4 / 5, 0, 4 / 25)]"
    by (simp add: foliageFrame_def familyFrame_def lerp_def targetProgress_def initUniforms_def)
  from progress_small_steps_bounded[OF u, of "[(FORMED, 1, 1), (CHAOS, 2, 1)]"] small
  have "\<forall>(p, t, p') \<in> set (progressSteps foliageFrame [(FORMED, 1, 1), (CHAOS, 2, 1)]
            (initUniforms 1)). between p t p' \<and> 0 \<le> p' \<and> p' \<le> 1"
    by blast
  then have "\<forall>(p, t, p') \<in> set [(0, 1, 4 / 5), (4 / 5, 0, 4 / 25 :: real)].
      between p t p' \<and> 0 \<le> p' \<and> p' \<le> 1"
    unfolding steps .
  then have "between 0 1 (4 / 5) \<and> between (4 / 5) 0 (4 / 25)"
    by simp
  with steps show ?thesis by (intro conjI) blast+
qed

section \<open>The eased blend at the endpoints\<close>

text \<open>
  C7: the ease function is 0 at 0 and 1 at 1, so the blended position
  \<open>mix(chaos, target, ease(progress))\<close> of a particle is its chaos position at progress 0
  and its target position at progress 1.
\<close>

theorem ease_blend_endpoints:
  "ease 0 = 0 \<and> ease 1 = 1 \<and>
   blendedPos aChaosPos aTargetPos 0 = aChaosPos \<and>
   blendedPos aChaosPos aTargetPos 1 = aTargetPos"
  by (simp add: blendedPos_def mix3_def mix_def ease_def)

text \<open>
  The foliage position itself is the chaos position at progress 0; at progress 1 the
  shader adds its wind offset to the blended position.
\<close>

lemma foliagePos_chaos: "foliagePos time aChaosPos aTargetPos 0 = aChaosPos"
  by (simp add: foliagePos_def blendedPos_def mix3_def mix_def ease_def)

section \<open>Photo placement along the ribbon\<close>

lemma curveParam_many: "1 < n \<Longrightarrow> curveParam n i = 0.15 + (real i / real (n - 1)) * 0.7"
  by (simp add: curveParam_def of_nat_diff)

text \<open>
  C8: the photo at index \<open>i\<close> of \<open>N\<close> source photos is placed at the ribbon point of the
  curve parameter computed for it; for \<open>N > 1\<close> that parameter is
  \<open>0.15 + (i / (N - 1)) * 0.7\<close> (for five photos \<open>0.15 + (i / 4) * 0.7\<close>, for two photos 0.15
  and 0.85), and for a single photo it is 0.5.
\<close>

theorem photo_curve_param:
  assumes "i < length src"
  shows "ribbonPoint (generatePhotoPositions getPointAt src ! i) =
           getPointAt (curveParam (length src) i) \<and>
         (1 < length src \<longrightarrow>
            curveParam (length src) i = 0.15 + (real i / real (length src - 1)) * 0.7) \<and>
         (length src = 5 \<longrightarrow> curveParam (length src) i = 0.15 + (real i / 4) * 0.7) \<and>
         (length src = 2 \<longrightarrow> curveParam 2 0 = 0.15 \<and> curveParam 2 1 = 0.85) \<and>
         (length src = 1 \<longrightarrow> curveParam (length src) i = 0.5)"
proof -
  have "ribbonPoint (generatePhotoPositions getPointAt src ! i) =
          getPointAt (curveParam (length src) i)"
    using assms by (simp add: generatePhotoPositions_def nth_enumerate_eq Let_def)
  moreover have "1 < length src \<longrightarrow>
      curveParam (length src) i = 0.15 + (real i / real (length src - 1)) * 0.7"
    by (simp add: curveParam_many)
  moreover have "length src = 5 \<longrightarrow> curveParam (length src) i = 0.15 + (real i / 4) * 0.7"
    by (simp add: curveParam_def)
  moreover have "curveParam 2 0 = 0.15 \<and> curveParam 2 1 = 0.85"
    by (simp add: curveParam_def)
  moreover have "length src = 1 \<longrightarrow> curveParam (length src) i = 0.5"
    by (simp add: curveParam_def)
  ultimately show ?thesis by blast
qed

theorem photo_curve_param_witness:
  "ribbonPoint (generatePhotoPositions probeCurve fiveSources ! 2) = probeCurve (1 / 2) \<and>
   curveParam 5 2 = 0.15 + (2 / 4) * 0.7"
proof -
  have i: "2 < length fiveSources" by (simp add: fiveSources_def)
  have n: "length fiveSources = 5" by (simp add: fiveSources_def)
  from photo_curve_param[OF i, of probeCurve] n
  have "ribbonPoint (generatePhotoPositions probeCurve fiveSources ! 2) =
          probeCurve (curveParam 5 2)"
    and "curveParam 5 2 = 0.15 + (real 2 / 4) * 0.7"
    by simp_all
  then show ?thesis by simp
qed

section \<open>Gesture classification\<close>

lemma distLm_examples: "distLm origin origin = 0" "distLm tip origin = 1"
  by (simp_all add: distLm_def origin_def tip_def)

lemma detect_fistHand: "detectGesture fistHand = Inr FIST"
  by (simp add: detectGesture_def fistHand_def distLm_examples)

lemma detect_openHand: "detectGesture openHand = Inr OPEN"
  by (simp add: detectGesture_def openHand_def distLm_examples)

lemma detect_noneHand: "detectGesture noneHand = Inr NONE"
  by (simp add: detectGesture_def noneHand_def distLm_examples)

text \<open>
  C6: on every hand sample (21 landmarks) the classifier returns what the rule of the
  specification gives on the four Euclidean distances from the wrist (landmark 0) to
  the tips of index, middle, ring and pinky (landmarks 8, 12, 16, 20), each the square
  root of the sum of the squared coordinate differences: FIST if their average is
  below the low threshold, else POINT if the index distance exceeds the extension
  threshold and the other three are each below the curl threshold, else OPEN if the
  average exceeds the high threshold, else NONE.
\<close>

theorem classify_refines_spec:
  assumes "21 \<le> length landmarks"
  shows "detectGesture landmarks =
           Inr (specClassify
                  (sqrt ((lx (landmarks ! 8) - lx (landmarks ! 0)) ^ 2 +
                         (ly (landmarks ! 8) - ly (landmarks ! 0)) ^ 2 +
                         (lz (landmarks ! 8) - lz (landmarks ! 0)) ^ 2))
                  (sqrt ((lx (landmarks ! 12) - lx (landmarks ! 0)) ^ 2 +
                         (ly (landmarks ! 12) - ly (landmarks ! 0)) ^ 2 +
                         (lz (landmarks ! 12) - lz (landmarks ! 0)) ^ 2))
                  (sqrt ((lx (landmarks ! 16) - lx (landmarks ! 0)) ^ 2 +
                         (ly (landmarks ! 16) - ly (landmarks ! 0)) ^ 2 +
                         (lz (landmarks ! 16) - lz (landmarks ! 0)) ^ 2))
                  (sqrt ((lx (landmarks ! 20) - lx (landmarks ! 0)) ^ 2 +
                         (ly (landmarks ! 20) - ly (landmarks ! 0)) ^ 2 +
                         (lz (landmarks ! 20) - lz (landmarks ! 0)) ^ 2)))"
  using assms
  by (simp add: detectGesture_def distLm_def specClassify_def Let_def lowThreshold_def
      highThreshold_def extensionThreshold_def curlThreshold_def)

theorem classify_refines_spec_witness:
  "21 \<le> length pointHand \<and> detectGesture pointHand = Inr POINT"
proof -
  have len: "21 \<le> length pointHand" by (simp add: pointHand_def)
  from classify_refines_spec[OF len]
  have "detectGesture pointHand = Inr POINT"
    by (simp add: pointHand_def origin_def tip_def specClassify_def lowThreshold_def
        highThreshold_def extensionThreshold_def curlThreshold_def)
  with len show ?thesis by blast
qed

section \<open>The debounce gate\<close>

lemma predictWebcam_hand:
  assumes "detectGesture lm = Inr g"
  shows "predictWebcam t (Detected (lm # hs)) st =
     ([HandMove (1 - lx (lm ! 0)) (ly (lm ! 0))] @ snd (gestureGate t g st),
      Inr (fst (gestureGate t g st)))"
proof -
  from assms have "length lm > 20" by (auto simp: detectGesture_def split: if_splits)
  then obtain w rest where lm: "lm = w # rest" by (cases lm) auto
  show ?thesis using assms unfolding lm
    by (simp add: predictWebcam_def Let_def split: prod.splits)
qed

lemma gesturesOf_append: "gesturesOf (xs @ ys) = gesturesOf xs @ gesturesOf ys"
  by (induction xs rule: gesturesOf.induct) auto

lemma gestureGate_emits:
  "gesturesOf (snd (gestureGate t g st)) =
     (if g \<noteq> lastGesture st \<and> t - gestureDebounce st > 150 then [g] else [])"
  by (simp add: gestureGate_def)

lemma gestureGate_state:
  "fst (gestureGate t g st) =
     (if g \<noteq> lastGesture st \<and> t - gestureDebounce st > 150
      then st\<lparr>lastGesture := g, gestureDebounce := t\<rparr> else st)"
  by (simp add: gestureGate_def)

text \<open>
  C5 (as stated, refuted): a FIST hand at time 1000 and an OPEN hand at time 1150, exactly
  150 ms apart, yield the single emission FIST: the gate asks for more than 150 ms.
\<close>

theorem debounce_exactly_150_counterexample:
  "detectGesture fistHand = Inr FIST \<and> detectGesture openHand = Inr OPEN \<and>
   gesturesOf (fst (runWebcam [(1000, Detected [fistHand]), (1150, Detected [openHand])]
                      initGesture)) = [FIST]"
  by (simp add: detect_fistHand detect_openHand predictWebcam_hand[OF detect_fistHand]
      predictWebcam_hand[OF detect_openHand] gestureGate_emits gestureGate_state
      gesturesOf_append initGesture_def split: prod.splits)

text \<open>
  C5 (amended): a classified gesture is emitted exactly when it differs from the last
  emitted gesture and more than 150 ms have passed since the last emission; hence,
  after an emitted gesture, a different classified gesture arriving at most 150 ms
  later is not emitted (one emission in all) and one arriving more than 150 ms later
  is emitted (two emissions).
\<close>

theorem debounce_more_than_150:
  assumes "detectGesture lm1 = Inr g1" and "detectGesture lm2 = Inr g2"
  shows "gesturesOf (fst (predictWebcam t1 (Detected [lm1]) st)) =
           (if g1 \<noteq> lastGesture st \<and> t1 - gestureDebounce st > 150 then [g1] else []) \<and>
         (g1 \<noteq> lastGesture st \<and> t1 - gestureDebounce st > 150 \<and> g1 \<noteq> g2 \<longrightarrow>
            gesturesOf (fst (runWebcam [(t1, Detected [lm1]), (t2, Detected [lm2])] st)) =
              (if t2 - t1 > 150 then [g1, g2] else [g1]))"
  using assms
  by (simp add: predictWebcam_hand gestureGate_emits gestureGate_state gesturesOf_append
      split: prod.splits)

theorem debounce_more_than_150_witness:
  "gesturesOf (fst (runWebcam [(1000, Detected [fistHand]), (1151, Detected [openHand])]
                      initGesture)) = [FIST, OPEN] \<and>
   gesturesOf (fst (runWebcam [(1000, Detected [fistHand]), (1149, Detected [openHand])]
                      initGesture)) = [FIST]"
  using debounce_more_than_150[OF detect_fistHand detect_openHand, of 1000 initGesture 1151]
    debounce_more_than_150[OF detect_fistHand detect_openHand, of 1000 initGesture 1149]
  by (simp add: initGesture_def)

section \<open>The first emission is never NONE\<close>

lemma predictWebcam_cases:
  "predictWebcam t det st = (evs, r) \<Longrightarrow>
     (gesturesOf evs = [] \<and> (r = Inr st \<or> (\<exists>e. r = Inl e))) \<or>
     (\<exists>g. gesturesOf evs = [g] \<and> g \<noteq> lastGesture st \<and>
          r = Inr (st\<lparr>lastGesture := g, gestureDebounce := t\<rparr>))"
  by (auto simp: predictWebcam_def gestureGate_def Let_def
      split: detection.splits list.splits sum.splits if_splits)

lemma runWebcam_fst:
  "fst (runWebcam ((t, det) # frames) st) =
     (case predictWebcam t det st of
        (evs, Inl e) \<Rightarrow> evs
      | (evs, Inr st') \<Rightarrow> evs @ fst (runWebcam frames st'))"
  by (simp split: prod.splits sum.splits)

lemma runWebcam_adjDistinct:
  "adjDistinct (lastGesture st # gesturesOf (fst (runWebcam frames st)))"
proof (induction frames arbitrary: st)
  case Nil
  then show ?case by simp
next
  case (Cons fr frames)
  obtain t det where fr: "fr = (t, det)" by (cases fr)
  obtain evs r where p: "predictWebcam t det st = (evs, r)"
    by (cases "predictWebcam t det st")
  from predictWebcam_cases[OF p] show ?case
  proof (elim disjE conjE exE)
    fix e assume "gesturesOf evs = []" "r = Inl e"
    then show ?thesis using p by (simp add: fr runWebcam_fst del: runWebcam.simps)
  next
    assume "gesturesOf evs = []" "r = Inr st"
    then show ?thesis using p Cons.IH[of st]
      by (simp add: fr gesturesOf_append runWebcam_fst del: runWebcam.simps)
  next
    fix g assume "gesturesOf evs = [g]" "g \<noteq> lastGesture st"
      "r = Inr (st\<lparr>lastGesture := g, gestureDebounce := t\<rparr>)"
    then show ?thesis using p Cons.IH[of "st\<lparr>lastGesture := g, gestureDebounce := t\<rparr>"]
      by (simp add: fr gesturesOf_append runWebcam_fst del: runWebcam.simps)
  qed
qed

lemma adjDistinct_nth: "adjDistinct xs \<Longrightarrow> Suc i < length xs \<Longrightarrow> xs ! i \<noteq> xs ! Suc i"
proof (induction xs arbitrary: i rule: adjDistinct.induct)
  case (3 x y zs)
  then show ?case by (cases i) auto
qed auto

text \<open>
  C10: in the sequence of gestures emitted by any run of the classifier from its
  initial state, the first emission is not NONE, and every NONE emission comes
  directly after an emission of a gesture other than NONE.
\<close>

theorem none_never_first:
  assumes "gs = gesturesOf (fst (runWebcam frames initGesture))"
  shows "(gs \<noteq> [] \<longrightarrow> hd gs \<noteq> NONE) \<and>
         (\<forall>i < length gs. gs ! i = NONE \<longrightarrow> 0 < i \<and> gs ! (i - 1) \<noteq> NONE)"
proof -
  have adj: "adjDistinct (NONE # gs)"
    using runWebcam_adjDistinct[of initGesture frames] assms by (simp add: initGesture_def)
  have first: "gs \<noteq> [] \<longrightarrow> hd gs \<noteq> NONE"
    using adj by (cases gs) auto
  have later: "gs ! i = NONE \<longrightarrow> 0 < i \<and> gs ! (i - 1) \<noteq> NONE" if "i < length gs" for i
  proof (cases i)
    case 0
    with first that show ?thesis by (cases gs) auto
  next
    case (Suc j)
    from adjDistinct_nth[OF adj, of i] that have "(NONE # gs) ! i \<noteq> (NONE # gs) ! Suc i"
      by simp
    then show ?thesis using Suc by auto
  qed
  from first later show ?thesis by blast
qed

theorem none_never_first_witness:
  "gesturesOf (fst (runWebcam [(1000, Detected [noneHand]), (2000, Detected [fistHand]),
                               (3000, Detected [noneHand])] initGesture)) = [FIST, NONE] \<and>
   hd [FIST, NONE] \<noteq> NONE"
proof -
  let ?frames = "[(1000, Detected [noneHand]), (2000, Detected [fistHand]),
                  (3000, Detected [noneHand])]"
  have run: "gesturesOf (fst (runWebcam ?frames initGesture)) = [FIST, NONE]"
    by (simp add: predictWebcam_hand[OF detect_fistHand] predictWebcam_hand[OF detect_noneHand]
        gestureGate_emits gestureGate_state gesturesOf_append initGesture_def
        split: prod.splits)
  from none_never_first[OF run[symmetric]] have "hd [FIST, NONE] \<noteq> NONE"
    by blast
  with run show ?thesis by blast
qed

section \<open>POINT without photos\<close>

text \<open>
  C3: at the initial state (no photos, \<open>CHAOS\<close>) a \<open>POINT\<close> gesture attempts no selection
  and does not throw, but the state becomes \<open>FOCUS\<close>: the return of \<open>FOCUS\<close> lies outside
  the test for a non-empty photo list.
\<close>

theorem point_without_photos_enters_focus:
  "handleGesture POINT 0 initApp = Inr (initApp\<lparr>gestureStatus := POINT, appState := FOCUS\<rparr>)"
  by (simp add: handleGesture_def initApp_def)

text \<open>
  C2: the state reached from the initial state by one \<open>POINT\<close> gesture is \<open>FOCUS\<close> with
  no featured photo.
\<close>

theorem focus_without_featured_photo:
  "(case handleGesture POINT 0 initApp of
      Inl e \<Rightarrow> False
    | Inr s' \<Rightarrow> appState s' = FOCUS \<and> featuredPhotoId s' = None)"
  by (simp add: handleGesture_def initApp_def)

text \<open>
  What does hold for C2: with at least one photo, a gesture keeps the property that
  \<open>FOCUS\<close> carries a featured photo, and \<open>OPEN\<close> and \<open>FIST\<close> clear the featured photo.
\<close>

lemma handleGesture_focus_featured:
  assumes "photos s \<noteq> []" and "appState s = FOCUS \<longrightarrow> featuredPhotoId s \<noteq> None"
    and "handleGesture g rnd s = Inr s'"
  shows "appState s' = FOCUS \<longrightarrow> featuredPhotoId s' \<noteq> None"
  using assms
  by (cases g) (auto simp: handleGesture_def Let_def split: if_splits)

lemma handleGesture_leaves_focus:
  "handleGesture OPEN rnd s =
     Inr (s\<lparr>gestureStatus := OPEN, featuredPhotoId := None, appState := CHAOS\<rparr>)"
  "handleGesture FIST rnd s =
     Inr (s\<lparr>gestureStatus := FIST, featuredPhotoId := None, appState := FORMED\<rparr>)"
  by (simp_all add: handleGesture_def)

section \<open>Hand positions during FOCUS\<close>

lemma handleHandMove_focus: "appState s = FOCUS \<Longrightarrow> handleHandMove x y s = s"
  by (simp add: handleHandMove_def)

lemma runHandMoves_focus: "appState s = FOCUS \<Longrightarrow> runHandMoves ms s = s"
  by (induction ms arbitrary: s) (auto simp: handleHandMove_focus)

lemma point_selection_clears_rotation:
  assumes "photos s \<noteq> []" and "appState s \<noteq> FOCUS" and "handleGesture POINT rnd s = Inr s'"
  shows "appState s' = FOCUS \<and> handRotation (runHandMoves ms s') = None"
proof -
  from assms have "appState s' = FOCUS \<and> handRotation s' = None"
    by (auto simp: handleGesture_def Let_def split: if_splits)
  then show ?thesis by (simp add: runHandMoves_focus)
qed

text \<open>
  C9: from the initial state (no photos), a hand position followed by a \<open>POINT\<close>
  gesture gives \<open>FOCUS\<close> with the hand-rotation override still set, and the hand
  positions that follow leave it set: entering \<open>FOCUS\<close> without a photo does not clear
  the override.
\<close>

theorem focus_keeps_stale_hand_rotation:
  "handleGesture POINT 0 (handleHandMove 0.3 0.4 initApp) =
     Inr (initApp\<lparr>handRotation := Some (0.3, 0.4), gestureStatus := POINT, appState := FOCUS\<rparr>) \<and>
   handRotation (runHandMoves [(0.5, 0.5)]
     (initApp\<lparr>handRotation := Some (0.3, 0.4), gestureStatus := POINT, appState := FOCUS\<rparr>)) =
     Some (0.3, 0.4)"
  by (simp add: handleGesture_def handleHandMove_def initApp_def)

section \<open>The history of featured photos\<close>

lemma lastN_short: "length xs \<le> n \<Longrightarrow> lastN n xs = xs"
  by (simp add: lastN_def)

lemma lastN_append_long: "n \<le> length ys \<Longrightarrow> lastN n (xs @ ys) = lastN n ys"
  by (simp add: lastN_def)

lemma lastN_append_lastN: "lastN n (lastN n xs @ ys) = lastN n (xs @ ys)"
proof (cases "length xs \<le> n")
  case True
  then show ?thesis by (simp add: lastN_def)
next
  case False
  define k where "k = length xs - n"
  have len: "length xs = k + n" using False by (simp add: k_def)
  have "lastN n (lastN n xs @ ys) = drop (length ys) (drop k xs @ ys)"
    by (simp add: lastN_def len)
  also have "\<dots> = drop (length ys + k) (xs @ ys)"
    unfolding drop_drop[symmetric] by (simp add: len)
  also have "\<dots> = lastN n (xs @ ys)"
    by (simp add: lastN_def len add.commute)
  finally show ?thesis .
qed

lemma pushHistory_lastN:
  assumes "length h \<le> 5"
  shows "pushHistory h x = lastN 5 (h @ [x])"
proof (cases "length h = 5")
  case True
  then obtain a list where "h = a # list" by (cases h) auto
  with True show ?thesis by (simp add: pushHistory_def MAX_HISTORY_def lastN_def Let_def)
next
  case False
  with assms have "length h < 5" by simp
  then show ?thesis by (simp add: pushHistory_def MAX_HISTORY_def lastN_def Let_def)
qed

lemma pushHistory_distinct: "distinct h \<Longrightarrow> x \<notin> set h \<Longrightarrow> distinct (pushHistory h x)"
  by (cases h) (auto simp: pushHistory_def Let_def)

lemma pushHistory_length: "length h \<le> 5 \<Longrightarrow> length (pushHistory h x) \<le> 5"
  by (cases h) (auto simp: pushHistory_def MAX_HISTORY_def Let_def)

text \<open>With more distinct photos than history entries, some photo is outside the history.\<close>

lemma strictCandidates_nonempty:
  assumes "distinct (map pid ps)" "length recent < length ps"
  shows "filter (\<lambda>p. pid p \<notin> set recent) ps \<noteq> []"
proof
  assume "filter (\<lambda>p. pid p \<notin> set recent) ps = []"
  then have "set (map pid ps) \<subseteq> set recent" by (auto simp: filter_empty_conv)
  then have "card (set (map pid ps)) \<le> card (set recent)" by (intro card_mono) auto
  also have "\<dots> \<le> length recent" by (rule card_length)
  finally have "card (set (map pid ps)) \<le> length recent" .
  moreover have "card (set (map pid ps)) = length ps"
    using distinct_card[OF assms(1)] by simp
  ultimately show False using assms(2) by linarith
qed

text \<open>\<open>Math.floor(Math.random() * n)\<close> is an index of an array of \<open>n > 0\<close> elements.\<close>

lemma randomIdx_range:
  assumes "0 \<le> rnd" "rnd < 1" "0 < n"
  shows "0 \<le> \<lfloor>rnd * real n\<rfloor> \<and> \<lfloor>rnd * real n\<rfloor> < int n"
proof -
  have "0 \<le> rnd * real n" using assms by simp
  moreover have "rnd * real n < 1 * real n"
    using assms by (intro mult_strict_right_mono) auto
  ultimately show ?thesis by (simp add: floor_less_iff)
qed

lemma handleGesture_select:
  assumes sel: "selects g s" and rnd: "0 \<le> rnd" "rnd < 1"
    and ids: "distinct (map pid (photos s))"
    and many: "length (recentPhotos s) < length (photos s)"
  shows "\<exists>i. i \<notin> set (recentPhotos s) \<and>
          handleGesture g rnd s =
            Inr (s\<lparr>gestureStatus := POINT, featuredPhotoId := Some i, handRotation := None,
                   recentPhotos := pushHistory (recentPhotos s) i, appState := FOCUS\<rparr>)"
proof -
  let ?strict = "filter (\<lambda>p. pid p \<notin> set (recentPhotos s)) (photos s)"
  have ne: "?strict \<noteq> []" using strictCandidates_nonempty[OF ids many] .
  then have cand: "selectCandidates (photos s) (recentPhotos s) = ?strict"
    by (simp add: selectCandidates_def Let_def)
  let ?k = "\<lfloor>rnd * real (length ?strict)\<rfloor>"
  have rng: "0 \<le> ?k \<and> ?k < int (length ?strict)"
    using randomIdx_range[OF rnd, of "length ?strict"] ne by simp
  then have "nat ?k < length ?strict" by linarith
  then have "?strict ! nat ?k \<in> set ?strict" by (rule nth_mem)
  then have notin: "pid (?strict ! nat ?k) \<notin> set (recentPhotos s)" by simp
  have "handleGesture g rnd s =
          Inr (s\<lparr>gestureStatus := POINT, featuredPhotoId := Some (pid (?strict ! nat ?k)),
                 handRotation := None,
                 recentPhotos := pushHistory (recentPhotos s) (pid (?strict ! nat ?k)),
                 appState := FOCUS\<rparr>)"
    using sel rng by (simp add: handleGesture_def selects_def cand Let_def)
  with notin show ?thesis by blast
qed

lemma handleGesture_noselect:
  assumes "\<not> selects g s"
  shows "\<exists>s'. handleGesture g rnd s = Inr s' \<and> photos s' = photos s \<and>
              recentPhotos s' = recentPhotos s"
  using assms by (cases g) (auto simp: handleGesture_def selects_def Let_def)

lemma runGestures_history:
  assumes "distinct (map pid (photos s))" "6 \<le> length (photos s)"
    and "distinct (recentPhotos s)" "length (recentPhotos s) \<le> 5"
    and "\<forall>(g, rnd) \<in> set gs. 0 \<le> rnd \<and> rnd < 1"
  shows "\<exists>s'. runGestures gs s = Inr s' \<and>
           recentPhotos s' = lastN 5 (recentPhotos s @ selectionLog gs s) \<and>
           distinct (recentPhotos s')"
  using assms
proof (induction gs arbitrary: s)
  case Nil
  then show ?case by (simp add: lastN_short)
next
  case (Cons a gs)
  obtain g rnd where a: "a = (g, rnd)" by (cases a)
  from Cons.prems(5) a have rnd: "0 \<le> rnd" "rnd < 1"
    and rest: "\<forall>(g, rnd) \<in> set gs. 0 \<le> rnd \<and> rnd < 1" by auto
  show ?case
  proof (cases "selects g s")
    case True
    from Cons.prems(2,4) have "length (recentPhotos s) < length (photos s)" by simp
    from handleGesture_select[OF True rnd Cons.prems(1) this]
    obtain i where i: "i \<notin> set (recentPhotos s)"
      and hg: "handleGesture g rnd s =
                 Inr (s\<lparr>gestureStatus := POINT, featuredPhotoId := Some i,
                        handRotation := None,
                        recentPhotos := pushHistory (recentPhotos s) i, appState := FOCUS\<rparr>)"
      (is "_ = Inr ?s'") by blast
    have p1: "distinct (map pid (photos ?s'))" "6 \<le> length (photos ?s')"
      using Cons.prems(1,2) by simp_all
    have p2: "distinct (recentPhotos ?s')" "length (recentPhotos ?s') \<le> 5"
      using pushHistory_distinct[OF Cons.prems(3) i] pushHistory_length[OF Cons.prems(4)]
      by simp_all
    from Cons.IH[OF p1 p2 rest] obtain s'' where s'': "runGestures gs ?s' = Inr s''"
       "recentPhotos s'' = lastN 5 (recentPhotos ?s' @ selectionLog gs ?s')"
       "distinct (recentPhotos s'')" by blast
    have "recentPhotos s'' = lastN 5 (recentPhotos s @ i # selectionLog gs ?s')"
      using s''(2) pushHistory_lastN[OF Cons.prems(4), of i]
        lastN_append_lastN[of 5 "recentPhotos s @ [i]"]
      by simp
    then show ?thesis using s'' hg True by (simp add: a)
  next
    case False
    from handleGesture_noselect[OF False, of rnd] obtain s' where
      hg: "handleGesture g rnd s = Inr s'" and ph: "photos s' = photos s"
      and rp: "recentPhotos s' = recentPhotos s" by blast
    from Cons.IH[of s'] Cons.prems rest ph rp obtain s'' where s'': "runGestures gs s' = Inr s''"
       "recentPhotos s'' = lastN 5 (recentPhotos s' @ selectionLog gs s')"
       "distinct (recentPhotos s'')" by auto
    then show ?thesis using hg False rp by (simp add: a)
  qed
qed

text \<open>
  C4 (as stated, refuted): with two distinct photos, six \<open>POINT\<close> selections (each
  followed by \<open>OPEN\<close>) select a, b, a, b, a, b; the last five selections, which are the
  history, repeat both identifiers.
\<close>

theorem history_two_photos_counterexample:
  "distinct (map pid (photos twoPhotos)) \<and> length (photos twoPhotos) = 2 \<and>
   selectionLog sixPoints twoPhotos = [''a'', ''b'', ''a'', ''b'', ''a'', ''b''] \<and>
   lastN 5 [''a'', ''b'', ''a'', ''b'', ''a'', ''b''] = [''b'', ''a'', ''b'', ''a'', ''b''] \<and>
   \<not> distinct [''b'', ''a'', ''b'', ''a'', ''b'']"
  by (simp add: sixPoints_def twoPhotos_def initApp_def handleGesture_def selectCandidates_def
      pushHistory_def MAX_HISTORY_def photoWithId_def selects_def lastN_def Let_def)

text \<open>
  Five photos do not suffice either: once all five are in the history, the fallback
  excludes only the last one, and a draw of 1/4 selects b again while b is still among
  the last five selections.
\<close>

lemma history_five_photos_repeat:
  "selectionLog sixPointsSecond fivePhotos = [''a'', ''b'', ''c'', ''d'', ''e'', ''b''] \<and>
   \<not> distinct (lastN 5 [''a'', ''b'', ''c'', ''d'', ''e'', ''b''])"
  by (simp add: sixPointsSecond_def fivePhotos_def initApp_def handleGesture_def
      selectCandidates_def pushHistory_def MAX_HISTORY_def photoWithId_def selects_def
      lastN_def Let_def)

text \<open>
  C4 (amended): with at least 6 photos of distinct identifiers, from a history of at
  most 5 distinct identifiers, every sequence of gestures (with random draws in
  \<open>[0, 1)\<close>) runs without error, the history is the last 5 entries of the old history
  followed by the selections made, and it holds no identifier twice; so once 5
  selections have been made, no identifier appears twice in the last 5 selections.
\<close>

theorem history_distinct_six_photos:
  assumes "distinct (map pid (photos s))" and "6 \<le> length (photos s)"
    and "distinct (recentPhotos s)" and "length (recentPhotos s) \<le> 5"
    and "\<forall>(g, rnd) \<in> set gs. 0 \<le> rnd \<and> rnd < 1"
  shows "\<exists>s'. runGestures gs s = Inr s' \<and>
           recentPhotos s' = lastN 5 (recentPhotos s @ selectionLog gs s) \<and>
           distinct (recentPhotos s') \<and>
           (5 \<le> length (selectionLog gs s) \<longrightarrow> distinct (lastN 5 (selectionLog gs s)))"
proof -
  from runGestures_history[OF assms] obtain s' where s': "runGestures gs s = Inr s'"
     "recentPhotos s' = lastN 5 (recentPhotos s @ selectionLog gs s)"
     "distinct (recentPhotos s')"
    by blast
  then have "5 \<le> length (selectionLog gs s) \<longrightarrow> distinct (lastN 5 (selectionLog gs s))"
    using lastN_append_long[of 5 "selectionLog gs s" "recentPhotos s"] by auto
  with s' show ?thesis by blast
qed

theorem history_distinct_six_photos_witness:
  "selectionLog sixPoints sixPhotos = [''a'', ''b'', ''c'', ''d'', ''e'', ''f''] \<and>
   distinct (lastN 5 [''a'', ''b'', ''c'', ''d'', ''e'', ''f''])"
proof -
  have h1: "distinct (map pid (photos sixPhotos))"
    by (simp add: sixPhotos_def photoWithId_def)
  have h2: "6 \<le> length (photos sixPhotos)"
    by (simp add: sixPhotos_def)
  have h3: "distinct (recentPhotos sixPhotos)" "length (recentPhotos sixPhotos) \<le> 5"
    by (simp_all add: sixPhotos_def initApp_def)
  have h4: "\<forall>(g, rnd) \<in> set sixPoints. 0 \<le> rnd \<and> rnd < 1"
    by (simp add: sixPoints_def)
  have log: "selectionLog sixPoints sixPhotos = [''a'', ''b'', ''c'', ''d'', ''e'', ''f'']"
    by (simp add: sixPoints_def sixPhotos_def initApp_def handleGesture_def
        selectCandidates_def pushHistory_def MAX_HISTORY_def photoWithId_def selects_def
        Let_def)
  from history_distinct_six_photos[OF h1 h2 h3 h4]
  have "5 \<le> length (selectionLog sixPoints sixPhotos) \<longrightarrow>
        distinct (lastN 5 (selectionLog sixPoints sixPhotos))"
    by blast
  then have "distinct (lastN 5 [''a'', ''b'', ''c'', ''d'', ''e'', ''f''])"
    unfolding log by simp
  with log show ?thesis by blast
qed

end
